theory Spec2Isabelle
  imports Main
begin

unbundle bit_operations_syntax

section \<open>Errors\<close>

text \<open>
  Every exception the modelled Python code can raise is a value of this type; a function
  that can raise returns \<open>error + 'a\<close>, with \<open>Inl\<close> for the exception.
\<close>

datatype error =
    StructError    \<comment> \<open>struct.pack: integer out of range for the format\<close>
  | KeyError
  | IndexError
  | TypeError
  | NameError      \<comment> \<open>a global name that no import of the module provides\<close>
  | CompileError   \<comment> \<open>BobCompiler.CompileError\<close>
  | FormatError    \<comment> \<open>a byte stream that is not a serialized code object\<close>

section \<open>bob/bytecode.py: the bytecode model\<close>

definition OP_CONST :: int where "OP_CONST = 0x00"
definition OP_LOADVAR :: int where "OP_LOADVAR = 0x10"
definition OP_STOREVAR :: int where "OP_STOREVAR = 0x11"
definition OP_DEFVAR :: int where "OP_DEFVAR = 0x12"
definition OP_FUNCTION :: int where "OP_FUNCTION = 0x20"
definition OP_POP :: int where "OP_POP = 0x30"
definition OP_JUMP :: int where "OP_JUMP = 0x40"
definition OP_FJUMP :: int where "OP_FJUMP = 0x41"
definition OP_RETURN :: int where "OP_RETURN = 0x50"
definition OP_CALL :: int where "OP_CALL = 0x51"

lemmas opcode_defs = OP_CONST_def OP_LOADVAR_def OP_STOREVAR_def OP_DEFVAR_def
  OP_FUNCTION_def OP_POP_def OP_JUMP_def OP_FJUMP_def OP_RETURN_def OP_CALL_def

text \<open>The dictionary \<open>_opcode2str_map\<close>, in the order it is written.\<close>

definition opcode2str_map :: "(int \<times> string) list" where
  "opcode2str_map =
     [(OP_CONST, ''CONST''), (OP_LOADVAR, ''LOADVAR''), (OP_STOREVAR, ''STOREVAR''),
      (OP_DEFVAR, ''DEFVAR''), (OP_FUNCTION, ''FUNCTION''), (OP_POP, ''POP''),
      (OP_JUMP, ''JUMP''), (OP_FJUMP, ''FJUMP''), (OP_RETURN, ''RETURN''),
      (OP_CALL, ''CALL'')]"

definition opcode2str :: "int \<Rightarrow> error + string" where
  "opcode2str opcode =
     (case map_of opcode2str_map opcode of None \<Rightarrow> Inl KeyError | Some s \<Rightarrow> Inr s)"

text \<open>
  An opcode is one of the \<open>OP_...\<close> constants (the docstring of \<open>Instruction\<close>): the
  keys of \<open>_opcode2str_map\<close>.
\<close>

definition is_opcode :: "int \<Rightarrow> bool" where
  "is_opcode opcode = (opcode \<in> fst ` set opcode2str_map)"

text \<open>
  \<open>Instruction\<close>: an opcode and an argument. The argument of an instruction of a
  \<open>CodeObject\<close> is numeric, or \<open>None\<close> where the instruction takes none.
\<close>

datatype instruction = Instruction (opcode: int) (arg: "int option")

text \<open>
  The objects the serializer dispatches on: the nine keys of
  \<open>_serialize_type_dispatch\<close> (\<open>None\<close>, \<open>Boolean\<close>, \<open>Number\<close>, \<open>Symbol\<close>, \<open>Pair\<close>,
  \<open>Instruction\<close>, \<open>CodeObject\<close>, a Python list, a Python string). A \<open>CodeObject\<close> has
  the five fields of its constructor, typed as its docstring types them: \<open>args\<close> and
  \<open>varnames\<close> are lists of strings, \<open>code\<close> is a list of instructions, and
  \<open>constants\<close> is a list of Scheme expressions and code objects.
\<close>

datatype obj =
    PyNone
  | Boolean bool
  | Number int
  | Symbol string
  | Pair obj obj
  | Instr instruction
  | CodeObj codeobject
  | PyList "obj list"
  | PyStr string
and codeobject =
  CodeObject (name: string) (args: "string list") (code: "instruction list")
    (constants: "obj list") (varnames: "string list")

section \<open>bob/bytecode.py: the serializer\<close>

definition MAGIC_CONST :: int where "MAGIC_CONST = 0x00010B0B"

definition TYPE_NULL :: string where "TYPE_NULL = ''0''"
definition TYPE_BOOLEAN :: string where "TYPE_BOOLEAN = ''b''"
definition TYPE_STRING :: string where "TYPE_STRING = ''s''"
definition TYPE_NUMBER :: string where "TYPE_NUMBER = ''n''"
definition TYPE_PAIR :: string where "TYPE_PAIR = ''p''"
definition TYPE_INSTR :: string where "TYPE_INSTR = ''i''"
definition TYPE_SEQUENCE :: string where "TYPE_SEQUENCE = ''[''"
definition TYPE_CODEOBJECT :: string where "TYPE_CODEOBJECT = ''c''"

lemmas type_defs = TYPE_NULL_def TYPE_BOOLEAN_def TYPE_STRING_def TYPE_NUMBER_def
  TYPE_PAIR_def TYPE_INSTR_def TYPE_SEQUENCE_def TYPE_CODEOBJECT_def

text \<open>
  Modelled from the spec: \<open>utils.pack_word\<close> is imported by \<open>bytecode.py\<close> and is not
  among the sources. A word is a 32-bit integer written as 4 bytes, the least significant
  byte first unless \<open>big_endian\<close>. The specification has numbers stored as signed
  words: the word is the two's complement of an integer in \<open>-2^31 .. 2^31 - 1\<close>, and
  an integer outside that range has no such representation: packing it raises. A byte
  string is a \<open>string\<close>: the Python 2 \<open>str\<close> the serializer builds.
\<close>

definition pack_word :: "int \<Rightarrow> bool \<Rightarrow> error + string" where
  "pack_word word big_endian =
     (if - (2 ^ 31) \<le> word \<and> word < 2 ^ 31
      then (let bytes = map (\<lambda>k. char_of (drop_bit (8 * k) word)) [0, 1, 2, 3 :: nat]
            in Inr (if big_endian then rev bytes else bytes))
      else Inl StructError)"

text \<open>
  \<open>a + b\<close> on two byte strings each of which may have raised: the left operand is
  evaluated first, so its exception wins.
\<close>

fun cat :: "error + string \<Rightarrow> error + string \<Rightarrow> error + string" where
  "cat (Inl e) r = Inl e"
| "cat (Inr a) (Inl e) = Inl e"
| "cat (Inr a) (Inr b) = Inr (a @ b)"

definition s_word :: "int \<Rightarrow> error + string" where
  "s_word wordvalue = pack_word wordvalue False"

definition s_string :: "string \<Rightarrow> error + string" where
  "s_string s = cat (Inr TYPE_STRING) (cat (s_word (int (length s))) (Inr s))"

definition s_null :: "error + string" where
  "s_null = Inr TYPE_NULL"

definition s_boolean :: "bool \<Rightarrow> error + string" where
  "s_boolean b = Inr (TYPE_BOOLEAN @ (if b then [CHR 0x01] else [CHR 0x00]))"

definition s_number :: "int \<Rightarrow> error + string" where
  "s_number n = cat (Inr TYPE_NUMBER) (s_word n)"

definition s_symbol :: "string \<Rightarrow> error + string" where
  "s_symbol v = s_string v"

text \<open>\<open>instr.arg or 0\<close>: \<open>None\<close> and \<open>0\<close> are the two falsy arguments.\<close>

definition arg_or_0 :: "int option \<Rightarrow> int" where
  "arg_or_0 a = (case a of None \<Rightarrow> 0 | Some v \<Rightarrow> if v \<noteq> 0 then v else 0)"

definition s_instruction :: "instruction \<Rightarrow> error + string" where
  "s_instruction instr =
     (let a = arg_or_0 (arg instr);
          instr_word = push_bit 24 (opcode instr) OR (a AND 0xFFFFFF)
      in cat (Inr TYPE_INSTR) (s_word instr_word))"

text \<open>
  \<open>_s_sequence\<close>, given the serialization of each element of the list in order:
  \<open>''.join(...)\<close>, then the tag, the length of the joined string and the string.
\<close>

definition s_sequence :: "(error + string) list \<Rightarrow> error + string" where
  "s_sequence rs =
     (case foldr cat rs (Inr []) of
        Inl e \<Rightarrow> Inl e
      | Inr seq \<Rightarrow> cat (Inr TYPE_SEQUENCE) (cat (s_word (int (length seq))) (Inr seq)))"

text \<open>
  \<open>_s_object\<close> dispatches on the type of its argument; \<open>_s_codeobject\<close> serializes the
  name, then \<open>args\<close>, \<open>constants\<close>, \<open>varnames\<close> and \<open>code\<close> as sequences, whose
  elements are dispatched in turn (strings to \<open>_s_string\<close>, instructions to
  \<open>_s_instruction\<close>).
\<close>

fun s_object :: "obj \<Rightarrow> error + string"
and s_codeobject :: "codeobject \<Rightarrow> error + string" where
  "s_object PyNone = s_null"
| "s_object (Boolean b) = s_boolean b"
| "s_object (Number n) = s_number n"
| "s_object (Symbol v) = s_symbol v"
| "s_object (Pair a b) = cat (Inr TYPE_PAIR) (cat (s_object a) (s_object b))"
| "s_object (Instr i) = s_instruction i"
| "s_object (CodeObj c) = s_codeobject c"
| "s_object (PyList xs) = s_sequence (map s_object xs)"
| "s_object (PyStr s) = s_string s"
| "s_codeobject (CodeObject nm as cd cs vs) =
     cat (Inr TYPE_CODEOBJECT)
       (cat (s_string nm)
         (cat (s_sequence (map s_string as))
           (cat (s_sequence (map s_object cs))
             (cat (s_sequence (map s_string vs))
               (s_sequence (map s_instruction cd))))))"

definition serialize_bytecode :: "codeobject \<Rightarrow> error + string" where
  "serialize_bytecode codeobject = cat (s_word MAGIC_CONST) (s_codeobject codeobject)"

section \<open>The expression tree\<close>

text \<open>
  Modelled from the spec: the module \<open>expr\<close> (the classes of the expression tree, the
  predicates \<open>is_self_evaluating\<close>, \<open>is_variable\<close>, \<open>is_quoted\<close>, ..., the accessors
  \<open>assignment_variable\<close>, \<open>if_predicate\<close>, ..., \<open>expand_nested_pairs\<close> and the two
  desugarings) is imported by \<open>compiler.py\<close> and is not among the sources. An expression
  is modelled by the shape the compiler's dispatch recognises, one constructor per shape,
  holding what the accessors of that shape return:
  \<^item> \<open>ENumber\<close>, \<open>EBoolean\<close>: the self-evaluating literals, with their \<open>value\<close>;
  \<^item> \<open>ESymbol\<close>: a variable, with its name;
  \<^item> \<open>Quoted\<close>: a quotation, with its text;
  \<^item> \<open>Assignment\<close>, \<open>Definition\<close>: the name of the variable and the value expression;
  \<^item> \<open>If\<close>: predicate, consequent and alternative;
  \<^item> \<open>Cond\<close>, \<open>Let\<close>: the expression \<open>convert_cond_to_ifs\<close>, respectively
    \<open>convert_let_to_application\<close>, returns for it (nested ifs; the application of a
    lambda);
  \<^item> \<open>Lambda\<close>: the expanded parameter list and the expanded body;
  \<^item> \<open>Begin\<close>: the expanded list of actions;
  \<^item> \<open>Application\<close>: the operator and the expanded list of operands;
  \<^item> \<open>ENull\<close>: the empty list, the one value no predicate of the dispatch recognises.
\<close>

datatype expr =
    ENumber int
  | EBoolean bool
  | ESymbol string
  | Quoted expr
  | Assignment string expr
  | Definition string expr
  | If expr expr expr
  | Cond expr
  | Let expr
  | Lambda "expr list" "expr list"
  | Begin "expr list"
  | Application expr "expr list"
  | ENull

section \<open>bob/compiler.py: the compiler\<close>

text \<open>
  The compiler emits instructions of the host machine, as byteplay writes them: a pair
  of an opcode and an argument, or a label standing at a position of the list. An
  argument is \<open>None\<close>, an integer, a boolean, a string, a label or a nested \<open>Code\<close>
  object; \<open>Code\<close> has the ten fields of byteplay's constructor. A label is an object
  with an identity and nothing else: it is modelled by the number of labels created
  before it.
\<close>

datatype pyopcode =
    LOAD_CONST | LOAD_NAME | LOAD_GLOBAL | STORE_GLOBAL | LOAD_FAST | STORE_FAST
  | POP_TOP | RETURN_VALUE | MAKE_FUNCTION | POP_JUMP_IF_FALSE | JUMP_ABSOLUTE
  | CALL_FUNCTION

datatype pyarg = ANone | AInt int | ABool bool | AStr string | ALabel nat | ACode pycode
and pycode =
  Code (code_list: "pyinstr list") (freevars: "string list") (code_args: "string list")
    (varargs: bool) (varkwargs: bool) (newlocals: bool) (code_name: string)
    (filename: string) (firstlineno: int) (docstring: "string option")
and pyinstr = Op pyopcode pyarg | Lbl nat

text \<open>
  The compile-time frames. Nothing in \<open>BobCompiler\<close> calls their \<open>load\<close> or \<open>store\<close>;
  only \<open>_local_frame\<close> pushes and pops them. \<open>NoFrame\<close> is the compiler before
  \<open>compile\<close> has set its \<open>frame\<close> attribute.
\<close>

datatype frame = NoFrame | GlobalFrame "string set" | LocalFrame frame "string list"

text \<open>
  The state of a compilation: the two attributes of the \<open>BobCompiler\<close> object, and the
  number of \<open>Label\<close> objects created so far, which gives the next label its identity.
\<close>

record compiler_state =
  labelstate :: int
  frame :: frame
  next_label :: nat

text \<open>Sequencing of two steps of the compilation: an exception ends it.\<close>

definition bind ::
  "error + 'a \<times> compiler_state \<Rightarrow> ('a \<Rightarrow> compiler_state \<Rightarrow> error + 'b \<times> compiler_state)
    \<Rightarrow> error + 'b \<times> compiler_state" where
  "bind m f = (case m of Inl e \<Rightarrow> Inl e | Inr (a, s) \<Rightarrow> f a s)"

lemma bind_cong [fundef_cong]:
  "m = m' \<Longrightarrow> (\<And>a s. m' = Inr (a, s) \<Longrightarrow> f a s = f' a s) \<Longrightarrow> bind m f = bind m' f'"
  by (auto simp add: bind_def split: sum.splits)

definition Label :: "compiler_state \<Rightarrow> nat \<times> compiler_state" where
  "Label s = (next_label s, s\<lparr>next_label := Suc (next_label s)\<rparr>)"

definition instr :: "pyopcode \<Rightarrow> pyarg \<Rightarrow> pyinstr list" where
  "instr opc a = [Op opc a]"

text \<open>
  \<open>_instr_seq\<close>: each argument is an instruction sequence (a single instruction is the
  one-element list \<open>_instr\<close> returns), and the result is their concatenation.
\<close>

definition instr_seq :: "pyinstr list list \<Rightarrow> pyinstr list" where
  "instr_seq seqs = concat seqs"

text \<open>The loop of \<open>_comp_lambda\<close> over the parameters: only symbols are accepted.\<close>

fun lambda_arglist :: "expr list \<Rightarrow> error + string list" where
  "lambda_arglist [] = Inr []"
| "lambda_arglist (ESymbol v # xs) =
     (case lambda_arglist xs of Inl e \<Rightarrow> Inl e | Inr vs \<Rightarrow> Inr (v # vs))"
| "lambda_arglist (x # xs) = Inl CompileError"

text \<open>
  \<open>_comp\<close> and the methods it dispatches to. \<open>comp_pop_pairs\<close> is the comprehension of
  \<open>_comp_exprlist\<close> (each expression compiled and followed by \<open>POP_TOP\<close>), \<open>comp_args\<close>
  the comprehension of \<open>_comp_application\<close>. The quotation branch names \<open>OP_CONST\<close>,
  which neither \<open>byteplay\<close> nor \<open>expr\<close> provides to this module: evaluating the name
  raises.
\<close>

function (sequential) comp :: "expr \<Rightarrow> compiler_state \<Rightarrow> error + pyinstr list \<times> compiler_state"
and comp_lambda ::
  "expr list \<Rightarrow> expr list \<Rightarrow> compiler_state \<Rightarrow> error + pyinstr list \<times> compiler_state"
and comp_begin :: "expr list \<Rightarrow> compiler_state \<Rightarrow> error + pyinstr list \<times> compiler_state"
and comp_exprlist :: "expr list \<Rightarrow> compiler_state \<Rightarrow> error + pyinstr list \<times> compiler_state"
and comp_pop_pairs ::
  "expr list \<Rightarrow> compiler_state \<Rightarrow> error + pyinstr list list \<times> compiler_state"
and comp_definition ::
  "string \<Rightarrow> expr \<Rightarrow> compiler_state \<Rightarrow> error + pyinstr list \<times> compiler_state"
and comp_if ::
  "expr \<Rightarrow> expr \<Rightarrow> expr \<Rightarrow> compiler_state \<Rightarrow> error + pyinstr list \<times> compiler_state"
and comp_application ::
  "expr \<Rightarrow> expr list \<Rightarrow> compiler_state \<Rightarrow> error + pyinstr list \<times> compiler_state"
and comp_args ::
  "expr list \<Rightarrow> compiler_state \<Rightarrow> error + pyinstr list list \<times> compiler_state"
where
  "comp (ENumber n) s = Inr (instr LOAD_CONST (AInt n), s)"
| "comp (EBoolean b) s = Inr (instr LOAD_CONST (ABool b), s)"
| "comp (ESymbol v) s = Inr (instr LOAD_NAME (AStr v), s)"
| "comp (Quoted text) s = Inl NameError"
| "comp (Assignment v e) s =
     bind (comp e s) (\<lambda>compiled_val s1.
       Inr (instr_seq [compiled_val, instr STORE_FAST (AStr v)], s1))"
| "comp (Definition v e) s = comp_definition v e s"
| "comp (If p c a) s = comp_if p c a s"
| "comp (Cond ifs) s = comp ifs s"
| "comp (Let application) s = comp application s"
| "comp (Lambda params body) s = comp_lambda params body s"
| "comp (Begin actions) s = comp_begin actions s"
| "comp (Application operator operands) s = comp_application operator operands s"
| "comp ENull s = Inl CompileError"
| "comp_lambda params body s =
     (case lambda_arglist params of
        Inl e \<Rightarrow> Inl e
      | Inr arglist \<Rightarrow>
          bind (comp_begin body (s\<lparr>frame := LocalFrame (frame s) []\<rparr>)) (\<lambda>compiled s1.
            let ops = instr_seq [compiled, instr RETURN_VALUE ANone];
                proc_code = Code ops [] arglist False False True ''lambda'' ''<<scheme>>'' 0 None
            in Inr (instr_seq [instr LOAD_CONST (ACode proc_code), instr MAKE_FUNCTION (AInt 0)],
                    s1\<lparr>frame := frame s\<rparr>)))"
| "comp_begin exprs s = comp_exprlist exprs s"
| "comp_exprlist exprlist s =
     bind (comp_pop_pairs exprlist s) (\<lambda>instr_pop_pairs s1.
       let instrs = instr_seq instr_pop_pairs
       in Inr (if length instrs > 0 then butlast instrs else instrs, s1))"
| "comp_pop_pairs [] s = Inr ([], s)"
| "comp_pop_pairs (e # es) s =
     bind (comp e s) (\<lambda>compiled s1.
       bind (comp_pop_pairs es s1) (\<lambda>pairs s2.
         Inr (instr_seq [compiled, instr POP_TOP ANone] # pairs, s2)))"
| "comp_definition var val s =
     bind (comp val s) (\<lambda>compiled_val s1.
       Inr (instr_seq [compiled_val, instr STORE_FAST (AStr var), instr LOAD_CONST ANone], s1))"
| "comp_if p c a s =
     (let (label_else, s1) = Label s;
          (label_after_else, s2) = Label s1
      in bind (comp p s2) (\<lambda>compiled_p s3.
           bind (comp c s3) (\<lambda>compiled_c s4.
             bind (comp a s4) (\<lambda>compiled_a s5.
               Inr (instr_seq
                     [compiled_p,
                      instr POP_JUMP_IF_FALSE (ALabel label_else),
                      compiled_c,
                      instr JUMP_ABSOLUTE (ALabel label_after_else),
                      [Lbl label_else],
                      compiled_a,
                      [Lbl label_after_else]], s5)))))"
| "comp_application operator operands s =
     bind (comp_args operands s) (\<lambda>compiled_args s1.
       bind (comp operator s1) (\<lambda>compiled_op s2.
         Inr (instr_seq [compiled_op, instr_seq compiled_args,
                instr CALL_FUNCTION (AInt (int (length operands)))], s2)))"
| "comp_args [] s = Inr ([], s)"
| "comp_args (e # es) s =
     bind (comp e s) (\<lambda>compiled s1.
       bind (comp_args es s1) (\<lambda>rest s2. Inr (compiled # rest, s2)))"
  by pat_completeness auto

termination
  by (relation "measure
    (case_sum
      (case_sum
        (case_sum (\<lambda>(e, s). 5 * size e) (\<lambda>(ps, b, s). 5 * size_list size b + 4))
        (case_sum (\<lambda>(b, s). 5 * size_list size b + 3) (\<lambda>(b, s). 5 * size_list size b + 2)))
      (case_sum
        (case_sum (\<lambda>(es, s). 5 * size_list size es + 1) (\<lambda>(v, e, s). 5 * size e + 1))
        (case_sum (\<lambda>(p, c, a, s). 5 * (size p + size c + size a) + 1)
          (case_sum (\<lambda>(f, es, s). 5 * (size f + size_list size es) + 2)
            (\<lambda>(es, s). 5 * size_list size es + 1)))))") auto

text \<open>\<open>BobCompiler.compile\<close>: the expressions as one code object without arguments.\<close>

definition compile :: "expr list \<Rightarrow> compiler_state \<Rightarrow> error + pycode \<times> compiler_state" where
  "compile exprlist s =
     bind (comp_exprlist exprlist (s\<lparr>frame := GlobalFrame {}\<rparr>)) (\<lambda>compiled_exprs s1.
       let module = instr_seq [compiled_exprs, instr RETURN_VALUE ANone]
       in Inr (Code module [] [] False False False ''__main__'' ''<scheme>>'' 0 None, s1))"

text \<open>
  \<open>compile_code\<close>. The reader \<open>BobParser\<close> is outside the sources: it is a parameter, a
  function from the text to the list of parsed expressions or an error. The compiler is
  a new \<open>BobCompiler\<close> object; \<open>n\<close> is the number of labels the process has created
  before the call.
\<close>

definition BobCompiler :: "nat \<Rightarrow> compiler_state" where
  "BobCompiler n = \<lparr>labelstate = 0, frame = NoFrame, next_label = n\<rparr>"

definition compile_code :: "(string \<Rightarrow> error + expr list) \<Rightarrow> nat \<Rightarrow> string \<Rightarrow> error + pycode" where
  "compile_code parse n code_str =
     (case parse code_str of
        Inl e \<Rightarrow> Inl e
      | Inr parsed_exprs \<Rightarrow>
          (case compile parsed_exprs (BobCompiler n) of
             Inl e \<Rightarrow> Inl e
           | Inr (compiled, s) \<Rightarrow> Inr compiled))"

text \<open>
  The sequencing rule in the words of the specification: the code of each sub-expression
  in order, with one \<open>POP_TOP\<close> after every one but the last.
\<close>

fun pop_between :: "pyinstr list list \<Rightarrow> pyinstr list" where
  "pop_between [] = []"
| "pop_between [c] = c"
| "pop_between (c # cs) = c @ [Op POP_TOP ANone] @ pop_between cs"

text \<open>
  Two label objects differ only in their identity, so two instruction lists are
  structurally identical when a renaming of the labels makes them equal. The renaming
  that relates two runs of the compiler adds the difference between the numbers of
  labels created before each run.
\<close>

fun shift_arg :: "nat \<Rightarrow> pyarg \<Rightarrow> pyarg"
and shift_code :: "nat \<Rightarrow> pycode \<Rightarrow> pycode"
and shift_instr :: "nat \<Rightarrow> pyinstr \<Rightarrow> pyinstr" where
  "shift_arg d ANone = ANone"
| "shift_arg d (AInt n) = AInt n"
| "shift_arg d (ABool b) = ABool b"
| "shift_arg d (AStr v) = AStr v"
| "shift_arg d (ALabel l) = ALabel (l + d)"
| "shift_arg d (ACode c) = ACode (shift_code d c)"
| "shift_code d (Code is fv as va vk nl nm fn ln doc) =
     Code (map (shift_instr d) is) fv as va vk nl nm fn ln doc"
| "shift_instr d (Op opc a) = Op opc (shift_arg d a)"
| "shift_instr d (Lbl l) = Lbl (l + d)"

text \<open>
  Two results of a compilation step agree up to the renaming \<open>f\<close> of labels by \<open>d\<close>: both
  raise the same exception, or the second returns the renamed value of the first, with
  \<open>d\<close> more labels created.
\<close>

definition shifted ::
  "nat \<Rightarrow> ('a \<Rightarrow> 'a) \<Rightarrow> error + 'a \<times> compiler_state \<Rightarrow> error + 'a \<times> compiler_state \<Rightarrow> bool" where
  "shifted d f r r' =
     (case r of
        Inl e \<Rightarrow> r' = Inl e
      | Inr (c, s') \<Rightarrow> (\<exists>t'. r' = Inr (f c, t') \<and> next_label t' = next_label s' + d))"

section \<open>The host machine: conditional jumps\<close>

text \<open>
  The code the compiler emits is run by the Python interpreter (\<open>run_compiled\<close> passes
  it to \<open>eval\<close>); \<open>_comp_if\<close> and \<open>op_fjump\<close> both emit its instruction
  \<open>POP_JUMP_IF_FALSE\<close> for the conditional jump. That instruction pops the top of the
  stack and sets the program counter to its target when the popped value is false by
  Python's truth test, and goes on to the next instruction otherwise. \<open>py_truth\<close> is
  that truth test on the values the emitted code loads: \<open>None\<close>, \<open>False\<close>, the integer
  zero and the empty string are false, every other value is true.
\<close>

fun py_truth :: "pyarg \<Rightarrow> bool" where
  "py_truth ANone = False"
| "py_truth (ABool b) = b"
| "py_truth (AInt n) = (n \<noteq> 0)"
| "py_truth (AStr v) = (v \<noteq> [])"
| "py_truth (ALabel l) = True"
| "py_truth (ACode c) = True"

text \<open>
  The effect of \<open>POP_JUMP_IF_FALSE target\<close> at program counter \<open>pc\<close> on a stack whose
  top is \<open>tos\<close> and whose rest is \<open>stack\<close>: the new program counter and the new stack.
\<close>

definition pop_jump_if_false :: "nat \<Rightarrow> nat \<Rightarrow> pyarg \<Rightarrow> pyarg list \<Rightarrow> nat \<times> pyarg list" where
  "pop_jump_if_false target pc tos stack = (if py_truth tos then Suc pc else target, stack)"

section \<open>The host machine: the depth of the stack\<close>

text \<open>
  Each instruction of the host machine changes the number of values on its stack by a
  fixed amount. A load puts one value there; a store, \<open>POP_TOP\<close>, \<open>RETURN_VALUE\<close> and
  the conditional jump take one away; \<open>MAKE_FUNCTION n\<close> takes the code object and \<open>n\<close>
  default values and puts the function there; \<open>CALL_FUNCTION n\<close> takes the callee and
  \<open>n\<close> arguments and puts the result there; an unconditional jump and a label leave
  the stack as it is. \<open>argument_count\<close> is the \<open>n\<close> of the last two.
\<close>

fun argument_count :: "pyarg \<Rightarrow> int" where
  "argument_count (AInt n) = n"
| "argument_count a = 0"

fun stack_effect :: "pyinstr \<Rightarrow> int" where
  "stack_effect (Lbl l) = 0"
| "stack_effect (Op LOAD_CONST a) = 1"
| "stack_effect (Op LOAD_NAME a) = 1"
| "stack_effect (Op LOAD_GLOBAL a) = 1"
| "stack_effect (Op LOAD_FAST a) = 1"
| "stack_effect (Op STORE_GLOBAL a) = - 1"
| "stack_effect (Op STORE_FAST a) = - 1"
| "stack_effect (Op POP_TOP a) = - 1"
| "stack_effect (Op RETURN_VALUE a) = - 1"
| "stack_effect (Op POP_JUMP_IF_FALSE a) = - 1"
| "stack_effect (Op JUMP_ABSOLUTE a) = 0"
| "stack_effect (Op MAKE_FUNCTION a) = - argument_count a"
| "stack_effect (Op CALL_FUNCTION a) = - argument_count a"

text \<open>
  The depth of the stack after each instruction of a list that runs from its first
  instruction to its last without a jump, counted from the depth \<open>d\<close> before the first.
  A depth below \<open>d\<close> means that the code has taken a value it had not put there.
\<close>

fun stack_depths :: "int \<Rightarrow> pyinstr list \<Rightarrow> int list" where
  "stack_depths d [] = []"
| "stack_depths d (i # is) = (d + stack_effect i) # stack_depths (d + stack_effect i) is"

section \<open>bob2py.py: variables\<close>

text \<open>
  \<open>Environment\<close>: the parent environment or \<open>None\<close>, the list of locals, and the
  dictionary \<open>vars\<close> from a name to the pair of its kind and its argument (the name of
  the builtin method, or an index).
\<close>

datatype var_binding = BUILTIN string | ARG int | LOCAL int

datatype environment =
  Environment (parent: "environment option") (locals: "string list")
    (vars: "(string \<times> var_binding) list")

fun lookup_var :: "environment \<Rightarrow> string \<Rightarrow> error + var_binding" where
  "lookup_var (Environment p ls vs) v =
     (case map_of vs v of
        Some b \<Rightarrow> Inr b
      | None \<Rightarrow> (case p of Some env \<Rightarrow> lookup_var env v | None \<Rightarrow> Inl KeyError))"

text \<open>\<open>xs[i]\<close> in Python: a negative index counts from the end, \<open>None\<close> is no index.\<close>

definition py_index :: "'a list \<Rightarrow> int option \<Rightarrow> error + 'a" where
  "py_index xs i =
     (case i of
        None \<Rightarrow> Inl TypeError
      | Some k \<Rightarrow>
          (let n = int (length xs); j = (if k < 0 then n + k else k)
           in if 0 \<le> j \<and> j < n then Inr (xs ! nat j) else Inl IndexError))"

text \<open>
  \<open>CodeGenerator.op_storevar\<close>, on the list \<open>ops\<close> of the generator:
  \<open>self.instr(STORE_FAST, bobcode.varnames[instr.arg])\<close> appends one instruction. The
  environment is an argument the method does not read.
\<close>

definition op_storevar ::
  "pyinstr list \<Rightarrow> environment \<Rightarrow> codeobject \<Rightarrow> instruction \<Rightarrow> error + pyinstr list" where
  "op_storevar ops env bobcode ins =
     (case py_index (varnames bobcode) (arg ins) of
        Inl e \<Rightarrow> Inl e
      | Inr v \<Rightarrow> Inr (ops @ [Op STORE_FAST (AStr v)]))"

section \<open>bob/runtime.py and bob/cmd.py: the primitives\<close>

text \<open>Python's \<open>sum\<close>: the items are added to 0 from left to right.\<close>

definition py_sum :: "int list \<Rightarrow> int" where
  "py_sum xs = foldl (+) 0 xs"

definition add :: "int list \<Rightarrow> int" where
  "add xs = py_sum xs"

text \<open>
  The procedures the two modules bind: \<open>add\<close> and \<open>write\<close> of \<open>runtime.py\<close>, and the
  two lambdas of \<open>run_compiled\<close>. Calling one on a list of numbers raises, or returns a
  value (\<open>None\<close> for the printing procedures) together with what it printed.
\<close>

datatype host_procedure = Runtime_add | Runtime_write | Lambda_sum | Lambda_print

fun call :: "host_procedure \<Rightarrow> int list \<Rightarrow> error + int option \<times> int list list" where
  "call Runtime_add xs = Inr (Some (add xs), [])"
| "call Runtime_write xs = (case xs of [x] \<Rightarrow> Inr (None, [[x]]) | _ \<Rightarrow> Inl TypeError)"
| "call Lambda_sum xs = Inr (Some (py_sum xs), [])"
| "call Lambda_print xs = Inr (None, [xs])"

text \<open>
  The globals of \<open>runtime.py\<close>. The decorator \<open>non_identifier('+')\<close> binds \<open>+\<close> to \<open>add\<close>
  and appends \<open>add\<close> to \<open>__to_del\<close>; the loop at the end of the module deletes every name
  in \<open>__to_del\<close>.
\<close>

datatype global_value = Names "string list" | Decorator | Procedure host_procedure

definition runtime_defined :: "(string \<times> global_value) list" where
  "runtime_defined =
     [(''__to_del'', Names [''__to_del'', ''non_identifier'', ''add'']),
      (''non_identifier'', Decorator),
      (''+'', Procedure Runtime_add),
      (''add'', Procedure Runtime_add),
      (''write'', Procedure Runtime_write)]"

fun del_globals ::
  "string list \<Rightarrow> (string \<times> global_value) list \<Rightarrow> error + (string \<times> global_value) list" where
  "del_globals [] g = Inr g"
| "del_globals (d # ds) g =
     (if d \<in> fst ` set g then del_globals ds (filter (\<lambda>(k, v). k \<noteq> d) g) else Inl KeyError)"

definition runtime_globals :: "error + (string \<times> global_value) list" where
  "runtime_globals = del_globals [''__to_del'', ''non_identifier'', ''add''] runtime_defined"

text \<open>The dictionary \<open>run_compiled\<close> passes to \<open>eval\<close> as the globals of the code.\<close>

definition run_compiled_globals :: "(string \<times> global_value) list" where
  "run_compiled_globals = [(''+'', Procedure Lambda_sum), (''write'', Procedure Lambda_print)]"

section \<open>The deserializer\<close>






















section \<open>Words and bytes\<close>

lemma and_ffffff: "(a::int) AND 0xFFFFFF = a mod 2 ^ 24"
proof -
  have "(0xFFFFFF::int) = mask 24" by (simp add: mask_eq_exp_minus_1)
  then have "a AND 0xFFFFFF = take_bit 24 a" by (simp only: take_bit_eq_mask)
  then show ?thesis by (simp only: take_bit_eq_mod)
qed

lemma instr_word_eq:
  fixes op a :: int
  shows "push_bit 24 op OR (a AND 0xFFFFFF) = op * 2 ^ 24 + a mod 2 ^ 24"
proof -
  have "push_bit 24 op + take_bit 24 a = push_bit 24 op OR take_bit 24 a"
    by (rule disjunctive_add) (auto simp add: bit_simps)
  then show ?thesis by (simp only: and_ffffff take_bit_eq_mod push_bit_eq_mult)
qed

lemma instr_word_range:
  fixes op a :: int
  assumes "0 \<le> op" "op < 128"
  shows "0 \<le> op * 2 ^ 24 + a mod 2 ^ 24" "op * 2 ^ 24 + a mod 2 ^ 24 < 2 ^ 31"
proof -
  have m: "0 \<le> a mod 2 ^ 24" "a mod 2 ^ 24 < 2 ^ 24" by simp_all
  from assms m show "0 \<le> op * 2 ^ 24 + a mod 2 ^ 24" by simp
  from assms have "op \<le> 127" by simp
  then have "op * 2 ^ 24 \<le> 127 * 2 ^ 24" by simp
  with m show "op * 2 ^ 24 + a mod 2 ^ 24 < 2 ^ 31" by simp
qed

lemma is_opcode_byte: "is_opcode op \<Longrightarrow> 0 \<le> op \<and> op < 128"
  by (auto simp add: is_opcode_def opcode2str_map_def opcode_defs)

lemma pack_word_signed:
  "- (2 ^ 31) \<le> w \<Longrightarrow> w < 2 ^ 31 \<Longrightarrow>
   s_word w = Inr [char_of w, char_of (w div 2 ^ 8), char_of (w div 2 ^ 16), char_of (w div 2 ^ 24)]"
  by (simp add: s_word_def pack_word_def drop_bit_eq_div)

lemma pack_word_ok:
  "0 \<le> w \<Longrightarrow> w < 2 ^ 31 \<Longrightarrow>
   s_word w = Inr [char_of w, char_of (w div 2 ^ 8), char_of (w div 2 ^ 16), char_of (w div 2 ^ 24)]"
  by (rule pack_word_signed) simp_all

lemma low3:
  fixes w :: int
  shows "w mod 2 ^ 8 + 2 ^ 8 * (w div 2 ^ 8 mod 2 ^ 8) + 2 ^ 16 * (w div 2 ^ 16 mod 2 ^ 8)
      = w mod 2 ^ 24"
proof -
  have 1: "w mod (2 ^ 8 * 2 ^ 16) = 2 ^ 8 * (w div 2 ^ 8 mod 2 ^ 16) + w mod 2 ^ 8"
    by (rule zmod_zmult2_eq) simp
  have 2: "(w div 2 ^ 8) mod (2 ^ 8 * 2 ^ 8)
      = 2 ^ 8 * (w div 2 ^ 8 div 2 ^ 8 mod 2 ^ 8) + w div 2 ^ 8 mod 2 ^ 8"
    by (rule zmod_zmult2_eq) simp
  have 3: "w div 2 ^ 8 div 2 ^ 8 = w div (2 ^ 8 * 2 ^ 8)"
    by (rule zdiv_zmult2_eq [symmetric]) simp
  have p: "(2::int) ^ 8 * 2 ^ 16 = 2 ^ 24" "(2::int) ^ 8 * 2 ^ 8 = 2 ^ 16"
    by (simp_all only: power_add [symmetric]) simp_all
  have "w mod 2 ^ 24 = 2 ^ 8 * (w div 2 ^ 8 mod 2 ^ 16) + w mod 2 ^ 8"
    using 1 by (simp only: p)
  also have "w div 2 ^ 8 mod 2 ^ 16 = 2 ^ 8 * (w div 2 ^ 16 mod 2 ^ 8) + w div 2 ^ 8 mod 2 ^ 8"
    using 2 by (simp only: p 3)
  finally show ?thesis by (simp only: distrib_left mult.assoc [symmetric] p ac_simps)
qed

lemma word4:
  fixes w :: int
  assumes "0 \<le> w" "w < 2 ^ 32"
  shows "w mod 2 ^ 8 + 2 ^ 8 * (w div 2 ^ 8 mod 2 ^ 8) + 2 ^ 16 * (w div 2 ^ 16 mod 2 ^ 8)
      + 2 ^ 24 * (w div 2 ^ 24 mod 2 ^ 8) = w"
proof -
  have "0 \<le> w div 2 ^ 24" using assms by simp
  moreover have "w div 2 ^ 24 < 2 ^ 8"
    using assms by (simp add: div_less_iff_less_mult)
  ultimately have "w div 2 ^ 24 mod 2 ^ 8 = w div 2 ^ 24" by simp
  moreover have "w mod 2 ^ 24 + 2 ^ 24 * (w div 2 ^ 24) = w" by simp
  ultimately show ?thesis by (simp only: low3)
qed

lemma s_word_MAGIC_CONST:
  "s_word MAGIC_CONST = Inr [CHR 0x0B, CHR 0x0B, CHR 0x01, CHR 0x00]"
  by (simp add: s_word_def pack_word_def MAGIC_CONST_def drop_bit_eq_div char_of_def)

lemma cat_Inr_iff:
  "cat (Inr a) r = Inr out \<longleftrightarrow> (\<exists>b. r = Inr b \<and> out = a @ b)"
  by (cases r) auto

section \<open>The serialized form of an instruction\<close>

text \<open>
  Claim C2, as amended. Serializing an instruction whose opcode is one of the ten opcodes
  always succeeds: the result is the tag byte \<open>TYPE_INSTR\<close> followed by the four bytes
  of one little-endian word, whose high byte is the opcode and whose low three bytes hold
  the argument modulo \<open>2^24\<close> (its two's complement truncation; 0 for an absent
  argument). No argument makes the serialization fail: one that does not fit in 24 bits
  is cut to its low 24 bits.
\<close>

theorem s_instruction_layout:
  assumes "is_opcode (opcode ins)"
  shows "\<exists>b0 b1 b2 b3.
           s_instruction ins = Inr (TYPE_INSTR @ [b0, b1, b2, b3]) \<and>
           (of_char b3 :: int) = opcode ins \<and>
           (of_char b0 + 2 ^ 8 * of_char b1 + 2 ^ 16 * of_char b2 :: int) =
             (case arg ins of None \<Rightarrow> 0 | Some a \<Rightarrow> a mod 2 ^ 24)"
proof -
  define op where "op = opcode ins"
  define a where "a = arg_or_0 (arg ins)"
  define w where "w = op * 2 ^ 24 + a mod 2 ^ 24"
  from assms have op: "0 \<le> op" "op < 128"
    using is_opcode_byte by (simp_all add: op_def)
  have w: "0 \<le> w" "w < 2 ^ 31"
    using instr_word_range [OF op] by (simp_all add: w_def)
  have ser: "s_instruction ins = cat (Inr TYPE_INSTR) (s_word w)"
    by (simp add: s_instruction_def Let_def instr_word_eq w_def op_def a_def)
  have enc: "s_instruction ins =
      Inr (TYPE_INSTR @ [char_of w, char_of (w div 2 ^ 8), char_of (w div 2 ^ 16), char_of (w div 2 ^ 24)])"
    by (simp only: ser pack_word_ok [OF w] cat.simps)
  have hi: "w div 2 ^ 24 = op" by (simp add: w_def)
  have b3: "(of_char (char_of (w div 2 ^ 24)) :: int) = op"
    unfolding hi using op by (simp add: of_char_of)
  have lo: "w mod 2 ^ 24 = a mod 2 ^ 24" by (simp add: w_def)
  have a: "a mod 2 ^ 24 = (case arg ins of None \<Rightarrow> 0 | Some a \<Rightarrow> a mod 2 ^ 24)"
    by (simp add: a_def arg_or_0_def split: option.splits)
  have c: "(of_char (char_of x) :: int) = x mod 2 ^ 8" for x :: int
    by (simp add: of_char_of)
  have low: "(of_char (char_of w) + 2 ^ 8 * of_char (char_of (w div 2 ^ 8))
      + 2 ^ 16 * of_char (char_of (w div 2 ^ 16)) :: int) = a mod 2 ^ 24"
    by (simp only: c low3 lo)
  show ?thesis
  proof (intro exI conjI)
    show "s_instruction ins =
      Inr (TYPE_INSTR @ [char_of w, char_of (w div 2 ^ 8), char_of (w div 2 ^ 16), char_of (w div 2 ^ 24)])"
      by (rule enc)
    show "(of_char (char_of (w div 2 ^ 24)) :: int) = opcode ins"
      using b3 by (simp only: op_def)
    show "(of_char (char_of w) + 2 ^ 8 * of_char (char_of (w div 2 ^ 8))
      + 2 ^ 16 * of_char (char_of (w div 2 ^ 16)) :: int)
      = (case arg ins of None \<Rightarrow> 0 | Some a \<Rightarrow> a mod 2 ^ 24)"
      using low a by (simp only:)
  qed
qed

theorem s_instruction_layout_witness:
  "is_opcode (opcode (Instruction OP_CALL (Some 34))) \<and>
   (\<exists>b0 b1 b2 b3.
      s_instruction (Instruction OP_CALL (Some 34)) = Inr (TYPE_INSTR @ [b0, b1, b2, b3]) \<and>
      (of_char b3 :: int) = OP_CALL \<and>
      (of_char b0 + 2 ^ 8 * of_char b1 + 2 ^ 16 * of_char b2 :: int) = 34)"
proof -
  have h: "is_opcode (opcode (Instruction OP_CALL (Some 34)))"
    by (simp add: is_opcode_def opcode2str_map_def)
  show ?thesis
    using h s_instruction_layout [OF h] by simp
qed

text \<open>
  Claim C2 as stated fails: the argument \<open>2^24\<close> does not fit in 24 bits (neither as an
  unsigned nor as a signed value), and serializing \<open>Instruction(OP_CONST, 2^24)\<close> does not
  raise; it returns the bytes of \<open>Instruction(OP_CONST, 0)\<close>.
\<close>

theorem s_instruction_overflow_counterexample:
  "\<not> (- (2 ^ 23) \<le> (16777216 :: int) \<and> (16777216 :: int) < 2 ^ 24) \<and>
   s_instruction (Instruction OP_CONST (Some 16777216)) =
     Inr [CHR ''i'', CHR 0x00, CHR 0x00, CHR 0x00, CHR 0x00]"
  by (simp add: s_instruction_def arg_or_0_def OP_CONST_def TYPE_INSTR_def s_word_def
      pack_word_def char_of_def)

text \<open>
  Claim C10. For every opcode, an instruction whose argument is \<open>None\<close> serializes to
  the same bytes as the instruction with that opcode and argument 0, and the serialization
  succeeds: the tag, three zero bytes for the 24-bit argument field, and the opcode byte.
\<close>

theorem s_instruction_none_is_zero:
  assumes "is_opcode op"
  shows "s_instruction (Instruction op None) = s_instruction (Instruction op (Some 0)) \<and>
         s_instruction (Instruction op None) =
           Inr (TYPE_INSTR @ [CHR 0x00, CHR 0x00, CHR 0x00, char_of op])"
proof -
  from assms have op: "0 \<le> op" "op < 128"
    using is_opcode_byte by simp_all
  have w: "0 \<le> op * 2 ^ 24" "op * 2 ^ 24 < 2 ^ 31"
    using instr_word_range [OF op, of 0] by simp_all
  have eq: "s_instruction (Instruction op None) = s_instruction (Instruction op (Some 0))"
    by (simp add: s_instruction_def arg_or_0_def)
  have "s_instruction (Instruction op None) = cat (Inr TYPE_INSTR) (s_word (op * 2 ^ 24))"
    using instr_word_eq [of op 0] by (simp add: s_instruction_def arg_or_0_def)
  also have "s_word (op * 2 ^ 24) =
      Inr [char_of (op * 2 ^ 24), char_of (op * 2 ^ 24 div 2 ^ 8),
           char_of (op * 2 ^ 24 div 2 ^ 16), char_of (op * 2 ^ 24 div 2 ^ 24)]"
    by (rule pack_word_ok [OF w])
  also have "op * 2 ^ 24 div 2 ^ 24 = op" by simp
  also have "op * 2 ^ 24 div 2 ^ 16 = op * 2 ^ 8" by simp
  also have "op * 2 ^ 24 div 2 ^ 8 = op * 2 ^ 16" by simp
  finally have "s_instruction (Instruction op None) =
      Inr (TYPE_INSTR @ [char_of (op * 2 ^ 24), char_of (op * 2 ^ 16), char_of (op * 2 ^ 8), char_of op])"
    by simp
  moreover have "char_of (op * 2 ^ 24) = CHR 0x00" "char_of (op * 2 ^ 16) = CHR 0x00"
    "char_of (op * 2 ^ 8) = CHR 0x00"
    by (simp_all add: char_of_eq_iff take_bit_eq_mod)
  ultimately show ?thesis using eq by simp
qed

theorem s_instruction_none_is_zero_witness:
  "is_opcode OP_POP \<and>
   s_instruction (Instruction OP_POP None) = s_instruction (Instruction OP_POP (Some 0)) \<and>
   s_instruction (Instruction OP_POP None) = Inr [CHR ''i'', CHR 0x00, CHR 0x00, CHR 0x00, CHR ''0'']"
proof -
  have h: "is_opcode OP_POP"
    by (simp add: is_opcode_def opcode2str_map_def)
  show ?thesis
    using h s_instruction_none_is_zero [OF h]
    by (auto simp add: TYPE_INSTR_def OP_POP_def char_of_def)
qed

section \<open>The magic word\<close>

text \<open>
  Claim C5. Whenever serializing a code object succeeds, the output is four bytes followed
  by the encoding of the code object; read as a little-endian word the four bytes are
  \<open>MAGIC_CONST\<close>, whose low 16 bits are the sentinel \<open>0x0B0B\<close> and whose high 16 bits
  are the format version, 1.
\<close>

theorem serialize_bytecode_magic:
  assumes "serialize_bytecode c = Inr out"
  shows "\<exists>b0 b1 b2 b3 body.
           out = [b0, b1, b2, b3] @ body \<and>
           s_codeobject c = Inr body \<and>
           (of_char b0 + 2 ^ 8 * of_char b1 + 2 ^ 16 * of_char b2 + 2 ^ 24 * of_char b3 :: int)
             = MAGIC_CONST \<and>
           (of_char b0 + 2 ^ 8 * of_char b1 :: int) = 0x0B0B \<and>
           (of_char b2 + 2 ^ 8 * of_char b3 :: int) = drop_bit 16 MAGIC_CONST \<and>
           take_bit 16 MAGIC_CONST = (0x0B0B :: int) \<and> drop_bit 16 MAGIC_CONST = (1 :: int)"
proof -
  from assms obtain body where body: "s_codeobject c = Inr body"
    and out: "out = [CHR 0x0B, CHR 0x0B, CHR 0x01, CHR 0x00] @ body"
    by (auto simp add: serialize_bytecode_def s_word_MAGIC_CONST cat_Inr_iff)
  show ?thesis
  proof (intro exI conjI)
    show "out = [CHR 0x0B, CHR 0x0B, CHR 0x01, CHR 0x00] @ body" by (rule out)
    show "s_codeobject c = Inr body" by (rule body)
  qed (simp_all add: MAGIC_CONST_def drop_bit_eq_div take_bit_eq_mod)
qed

theorem serialize_bytecode_magic_witness:
  "serialize_bytecode (CodeObject [] [] [] [] []) =
     Inr ([CHR 0x0B, CHR 0x0B, CHR 0x01, CHR 0x00] @
          [CHR ''c'', CHR ''s'', CHR 0x00, CHR 0x00, CHR 0x00, CHR 0x00,
           CHR ''['', CHR 0x00, CHR 0x00, CHR 0x00, CHR 0x00,
           CHR ''['', CHR 0x00, CHR 0x00, CHR 0x00, CHR 0x00,
           CHR ''['', CHR 0x00, CHR 0x00, CHR 0x00, CHR 0x00,
           CHR ''['', CHR 0x00, CHR 0x00, CHR 0x00, CHR 0x00]) \<and>
   (\<exists>b0 b1 b2 b3 body.
      serialize_bytecode (CodeObject [] [] [] [] []) = Inr ([b0, b1, b2, b3] @ body) \<and>
      s_codeobject (CodeObject [] [] [] [] []) = Inr body \<and>
      (of_char b0 + 2 ^ 8 * of_char b1 + 2 ^ 16 * of_char b2 + 2 ^ 24 * of_char b3 :: int)
        = MAGIC_CONST)"
proof -
  have z: "s_word 0 = Inr [CHR 0x00, CHR 0x00, CHR 0x00, CHR 0x00]"
    by (simp add: s_word_def pack_word_def char_of_def)
  have c: "s_codeobject (CodeObject [] [] [] [] []) =
     Inr [CHR ''c'', CHR ''s'', CHR 0x00, CHR 0x00, CHR 0x00, CHR 0x00,
           CHR ''['', CHR 0x00, CHR 0x00, CHR 0x00, CHR 0x00,
           CHR ''['', CHR 0x00, CHR 0x00, CHR 0x00, CHR 0x00,
           CHR ''['', CHR 0x00, CHR 0x00, CHR 0x00, CHR 0x00,
           CHR ''['', CHR 0x00, CHR 0x00, CHR 0x00, CHR 0x00]"
    by (simp add: s_string_def s_sequence_def type_defs z)
  have h: "serialize_bytecode (CodeObject [] [] [] [] []) =
     Inr ([CHR 0x0B, CHR 0x0B, CHR 0x01, CHR 0x00] @
          [CHR ''c'', CHR ''s'', CHR 0x00, CHR 0x00, CHR 0x00, CHR 0x00,
           CHR ''['', CHR 0x00, CHR 0x00, CHR 0x00, CHR 0x00,
           CHR ''['', CHR 0x00, CHR 0x00, CHR 0x00, CHR 0x00,
           CHR ''['', CHR 0x00, CHR 0x00, CHR 0x00, CHR 0x00,
           CHR ''['', CHR 0x00, CHR 0x00, CHR 0x00, CHR 0x00])"
    by (simp only: serialize_bytecode_def s_word_MAGIC_CONST c cat.simps)
  from serialize_bytecode_magic [OF h] obtain b0 b1 b2 b3 body
    where 1: "[CHR 0x0B, CHR 0x0B, CHR 0x01, CHR 0x00] @
          [CHR ''c'', CHR ''s'', CHR 0x00, CHR 0x00, CHR 0x00, CHR 0x00,
           CHR ''['', CHR 0x00, CHR 0x00, CHR 0x00, CHR 0x00,
           CHR ''['', CHR 0x00, CHR 0x00, CHR 0x00, CHR 0x00,
           CHR ''['', CHR 0x00, CHR 0x00, CHR 0x00, CHR 0x00,
           CHR ''['', CHR 0x00, CHR 0x00, CHR 0x00, CHR 0x00] = [b0, b1, b2, b3] @ body"
    and 2: "s_codeobject (CodeObject [] [] [] [] []) = Inr body"
    and 3: "(of_char b0 + 2 ^ 8 * of_char b1 + 2 ^ 16 * of_char b2 + 2 ^ 24 * of_char b3 :: int)
        = MAGIC_CONST"
    by blast
  from h 1 have "serialize_bytecode (CodeObject [] [] [] [] []) = Inr ([b0, b1, b2, b3] @ body)"
    by (simp only:)
  with 2 3 have "\<exists>b0 b1 b2 b3 body.
      serialize_bytecode (CodeObject [] [] [] [] []) = Inr ([b0, b1, b2, b3] @ body) \<and>
      s_codeobject (CodeObject [] [] [] [] []) = Inr body \<and>
      (of_char b0 + 2 ^ 8 * of_char b1 + 2 ^ 16 * of_char b2 + 2 ^ 24 * of_char b3 :: int)
        = MAGIC_CONST"
    by blast
  with h show ?thesis by (rule conjI)
qed

section \<open>Symbols and strings\<close>

text \<open>
  Claim C9. For every string \<open>s\<close>, the symbol with value \<open>s\<close> and the plain string
  \<open>s\<close> are different objects with the same serialization, so the serializer is not
  injective; where the length fits a word, that serialization is the tag
  \<open>TYPE_STRING\<close>, the length as a 4-byte little-endian word, and the characters.
\<close>

theorem s_symbol_is_s_string:
  "s_object (Symbol s) = s_object (PyStr s) \<and> Symbol s \<noteq> PyStr s \<and>
   (length s < 2 ^ 31 \<longrightarrow>
      (\<exists>l0 l1 l2 l3. s_object (Symbol s) = Inr (TYPE_STRING @ [l0, l1, l2, l3] @ s) \<and>
         (of_char l0 + 2 ^ 8 * of_char l1 + 2 ^ 16 * of_char l2 + 2 ^ 24 * of_char l3 :: int)
           = int (length s)))"
proof (intro conjI impI)
  show "s_object (Symbol s) = s_object (PyStr s)" by (simp add: s_symbol_def)
  show "Symbol s \<noteq> PyStr s" by simp
  assume len: "length s < 2 ^ 31"
  define w where "w = int (length s)"
  have w: "0 \<le> w" "w < 2 ^ 31" using len by (simp_all add: w_def)
  have w32: "w < 2 ^ 32" using w(2) by simp
  have c: "(of_char (char_of x) :: int) = x mod 2 ^ 8" for x :: int
    by (simp add: of_char_of)
  have "s_object (Symbol s) =
      Inr (TYPE_STRING @ [char_of w, char_of (w div 2 ^ 8), char_of (w div 2 ^ 16), char_of (w div 2 ^ 24)] @ s)"
    by (simp add: s_symbol_def s_string_def pack_word_ok [OF w] flip: w_def)
  moreover have "(of_char (char_of w) + 2 ^ 8 * of_char (char_of (w div 2 ^ 8))
      + 2 ^ 16 * of_char (char_of (w div 2 ^ 16)) + 2 ^ 24 * of_char (char_of (w div 2 ^ 24)) :: int) = w"
    unfolding c by (rule word4 [OF w(1) w32])
  ultimately show "\<exists>l0 l1 l2 l3. s_object (Symbol s) = Inr (TYPE_STRING @ [l0, l1, l2, l3] @ s) \<and>
         (of_char l0 + 2 ^ 8 * of_char l1 + 2 ^ 16 * of_char l2 + 2 ^ 24 * of_char l3 :: int)
           = int (length s)"
    unfolding w_def by blast
qed

theorem s_symbol_is_s_string_witness:
  "length ''abc'' < 2 ^ 31 \<and>
   s_object (Symbol ''abc'') = s_object (PyStr ''abc'') \<and>
   s_object (Symbol ''abc'') = Inr [CHR ''s'', CHR 0x03, CHR 0x00, CHR 0x00, CHR 0x00,
     CHR ''a'', CHR ''b'', CHR ''c'']"
proof -
  have "s_object (Symbol ''abc'') = Inr [CHR ''s'', CHR 0x03, CHR 0x00, CHR 0x00, CHR 0x00,
     CHR ''a'', CHR ''b'', CHR ''c'']"
    by (simp add: s_symbol_def s_string_def TYPE_STRING_def s_word_def pack_word_def
        char_of_def)
  with s_symbol_is_s_string [of "''abc''"] show ?thesis
    by simp
qed

section \<open>Sequences of expressions\<close>

lemma comp_pop_pairs_comp_args:
  "comp_pop_pairs es s =
     (case comp_args es s of
        Inl e \<Rightarrow> Inl e
      | Inr (cs, s') \<Rightarrow> Inr (map (\<lambda>c. c @ [Op POP_TOP ANone]) cs, s'))"
proof (induction es arbitrary: s)
  case Nil
  show ?case by simp
next
  case (Cons e es)
  show ?case
    by (simp add: bind_def Cons.IH instr_seq_def instr_def split: sum.splits prod.splits)
qed

lemma butlast_pop_pairs:
  "cs \<noteq> [] \<Longrightarrow>
   butlast (concat (map (\<lambda>c. c @ [Op POP_TOP ANone]) cs)) = pop_between cs"
proof (induction cs rule: pop_between.induct)
  case 1
  then show ?case by simp
next
  case (2 c)
  show ?case by simp
next
  case (3 c v va)
  then show ?case by (simp add: butlast_append)
qed

lemma comp_args_length:
  "comp_args es s = Inr (cs, s') \<Longrightarrow> length cs = length es"
  by (induction es arbitrary: s cs) (auto simp add: bind_def split: sum.splits prod.splits)

text \<open>
  Compiling a sequence of expressions compiles each sub-expression in order, as
  \<open>comp_args\<close> does, and emits their code with exactly one \<open>POP_TOP\<close> after every
  sub-expression but the last; an exception in any sub-expression is the result of the
  whole. A \<open>begin\<close> is compiled as the sequence of its actions, and the top level as the
  sequence of its expressions followed by the return instruction.
\<close>

lemma comp_exprlist_emission:
  "comp_exprlist es s =
     (case comp_args es s of
        Inl e \<Rightarrow> Inl e
      | Inr (cs, s') \<Rightarrow> Inr (pop_between cs, s')) \<and>
   comp (Begin es) s = comp_exprlist es s \<and>
   compile es s =
     (case comp_exprlist es (s\<lparr>frame := GlobalFrame {}\<rparr>) of
        Inl e \<Rightarrow> Inl e
      | Inr (instrs, s') \<Rightarrow>
          Inr (Code (instrs @ [Op RETURN_VALUE ANone]) [] [] False False False
                 ''__main__'' ''<scheme>>'' 0 None, s'))"
proof (intro conjI)
  show "comp_exprlist es s =
     (case comp_args es s of
        Inl e \<Rightarrow> Inl e
      | Inr (cs, s') \<Rightarrow> Inr (pop_between cs, s'))"
  proof (cases "comp_args es s")
    case (Inl e)
    then show ?thesis by (simp add: bind_def comp_pop_pairs_comp_args)
  next
    case (Inr r)
    obtain cs s' where r: "r = (cs, s')" by (cases r)
    show ?thesis
    proof (cases "cs = []")
      case True
      with Inr r show ?thesis
        by (simp add: bind_def comp_pop_pairs_comp_args instr_seq_def)
    next
      case False
      then have "concat (map (\<lambda>c. c @ [Op POP_TOP ANone]) cs) \<noteq> []"
        by (cases cs) simp_all
      with False Inr r show ?thesis
        by (simp add: bind_def comp_pop_pairs_comp_args instr_seq_def butlast_pop_pairs Let_def)
    qed
  qed
  show "comp (Begin es) s = comp_exprlist es s" by simp
  show "compile es s =
     (case comp_exprlist es (s\<lparr>frame := GlobalFrame {}\<rparr>) of
        Inl e \<Rightarrow> Inl e
      | Inr (instrs, s') \<Rightarrow>
          Inr (Code (instrs @ [Op RETURN_VALUE ANone]) [] [] False False False
                 ''__main__'' ''<scheme>>'' 0 None, s'))"
    by (simp add: compile_def bind_def instr_seq_def instr_def split: sum.splits)
qed

text \<open>
  Claim C6. The instructions are emitted as the claim says, but the value of the final
  sub-expression is not always what remains on the stack. The \<open>POP_TOP\<close> after a
  sub-expression takes away the one value that sub-expression is to leave, and the code
  of an assignment leaves none: it is the code of the value followed by \<open>STORE_FAST\<close>,
  which takes the value away again. For \<open>(begin (set! x 5) 1)\<close> the compiler emits four
  instructions, and the depth of the stack after each, counted from the depth before the
  first, is 1, 0, -1, 0: the \<open>POP_TOP\<close> takes a value the sequence has not put there,
  and after the last instruction the stack is no deeper than before, so the value 1 has
  replaced a value of the surrounding code instead of being added to it. At the top
  level the return instruction follows, and the depth ends at -1. The code of a
  definition, in \<open>_comp_definition\<close>, loads \<open>None\<close> after the store so that the
  expression has a value: for \<open>(begin (define x 5) 1)\<close> the depths are 1, 0, 1, 0, 1,
  and exactly the value of the final sub-expression remains.
\<close>

theorem comp_begin_assignment_stack:
  "comp (Begin [Assignment ''x'' (ENumber 5), ENumber 1]) s =
     Inr ([Op LOAD_CONST (AInt 5), Op STORE_FAST (AStr ''x''), Op POP_TOP ANone,
           Op LOAD_CONST (AInt 1)], s) \<and>
   stack_depths 0
     [Op LOAD_CONST (AInt 5), Op STORE_FAST (AStr ''x''), Op POP_TOP ANone,
      Op LOAD_CONST (AInt 1)] = [1, 0, - 1, 0] \<and>
   compile [Assignment ''x'' (ENumber 5), ENumber 1] s =
     Inr (Code [Op LOAD_CONST (AInt 5), Op STORE_FAST (AStr ''x''), Op POP_TOP ANone,
                Op LOAD_CONST (AInt 1), Op RETURN_VALUE ANone]
            [] [] False False False ''__main__'' ''<scheme>>'' 0 None,
          s\<lparr>frame := GlobalFrame {}\<rparr>) \<and>
   stack_depths 0
     [Op LOAD_CONST (AInt 5), Op STORE_FAST (AStr ''x''), Op POP_TOP ANone,
      Op LOAD_CONST (AInt 1), Op RETURN_VALUE ANone] = [1, 0, - 1, 0, - 1] \<and>
   comp (Begin [Definition ''x'' (ENumber 5), ENumber 1]) s =
     Inr ([Op LOAD_CONST (AInt 5), Op STORE_FAST (AStr ''x''), Op LOAD_CONST ANone,
           Op POP_TOP ANone, Op LOAD_CONST (AInt 1)], s) \<and>
   stack_depths 0
     [Op LOAD_CONST (AInt 5), Op STORE_FAST (AStr ''x''), Op LOAD_CONST ANone,
      Op POP_TOP ANone, Op LOAD_CONST (AInt 1)] = [1, 0, 1, 0, 1]"
  by (simp add: compile_def bind_def instr_seq_def instr_def)

section \<open>The output of the compiler does not depend on its state\<close>

lemma shifted_bind:
  assumes "shifted d f m m'"
    and "\<And>a s1 t1. m = Inr (a, s1) \<Longrightarrow> next_label t1 = next_label s1 + d \<Longrightarrow>
           shifted d g (k a s1) (k' (f a) t1)"
  shows "shifted d g (bind m k) (bind m' k')"
proof (cases m)
  case (Inl e)
  with assms(1) have "m' = Inl e" by (simp add: shifted_def)
  with Inl show ?thesis by (simp add: shifted_def bind_def)
next
  case (Inr r)
  obtain a s1 where r: "r = (a, s1)" by (cases r)
  from assms(1) Inr r obtain t1 where m': "m' = Inr (f a, t1)"
    and nl: "next_label t1 = next_label s1 + d"
    by (auto simp add: shifted_def)
  from assms(2) [of a s1 t1] Inr r nl have "shifted d g (k a s1) (k' (f a) t1)" by simp
  with Inr r m' show ?thesis by (simp add: bind_def)
qed

lemma shifted_Inr:
  "c' = f c \<Longrightarrow> next_label t = next_label s + d \<Longrightarrow> shifted d f (Inr (c, s)) (Inr (c', t))"
  by (simp add: shifted_def)

lemma comp_shift_all:
  "(\<forall>d t. next_label t = next_label s + d \<longrightarrow> shifted d (map (shift_instr d)) (comp e s) (comp e t))"
  "(\<forall>d t. next_label t = next_label s + d \<longrightarrow>
      shifted d (map (shift_instr d)) (comp_lambda ps body s) (comp_lambda ps body t))"
  "(\<forall>d t. next_label t = next_label s + d \<longrightarrow>
      shifted d (map (shift_instr d)) (comp_begin es s) (comp_begin es t))"
  "(\<forall>d t. next_label t = next_label s + d \<longrightarrow>
      shifted d (map (shift_instr d)) (comp_exprlist es s) (comp_exprlist es t))"
  "(\<forall>d t. next_label t = next_label s + d \<longrightarrow>
      shifted d (map (map (shift_instr d))) (comp_pop_pairs es s) (comp_pop_pairs es t))"
  "(\<forall>d t. next_label t = next_label s + d \<longrightarrow>
      shifted d (map (shift_instr d)) (comp_definition v e s) (comp_definition v e t))"
  "(\<forall>d t. next_label t = next_label s + d \<longrightarrow>
      shifted d (map (shift_instr d)) (comp_if p c a s) (comp_if p c a t))"
  "(\<forall>d t. next_label t = next_label s + d \<longrightarrow>
      shifted d (map (shift_instr d)) (comp_application f es s) (comp_application f es t))"
  "(\<forall>d t. next_label t = next_label s + d \<longrightarrow>
      shifted d (map (map (shift_instr d))) (comp_args es s) (comp_args es t))"
proof (induction e s and ps body s and es s and es s and es s and v e s and p c a s and f es s and es s
    rule: comp_comp_lambda_comp_begin_comp_exprlist_comp_pop_pairs_comp_definition_comp_if_comp_application_comp_args.induct)
  case (1 n s)
  show ?case by (simp add: shifted_def instr_def)
next
  case (2 b s)
  show ?case by (simp add: shifted_def instr_def)
next
  case (3 v s)
  show ?case by (simp add: shifted_def instr_def)
next
  case (4 q s)
  show ?case by (simp add: shifted_def)
next
  case (5 v e s)
  show ?case
  proof (intro allI impI)
    fix d and t :: compiler_state assume nl: "next_label t = next_label s + d"
    show "shifted d (map (shift_instr d)) (comp (Assignment v e) s) (comp (Assignment v e) t)"
      unfolding comp.simps
      by (rule shifted_bind) (use 5 nl in \<open>auto intro!: shifted_Inr simp add: instr_seq_def instr_def\<close>)
  qed
next
  case (6 v e s)
  then show ?case by simp
next
  case (7 p c a s)
  then show ?case by simp
next
  case (8 ifs s)
  then show ?case by simp
next
  case (9 application s)
  then show ?case by simp
next
  case (10 params body s)
  then show ?case by simp
next
  case (11 actions s)
  then show ?case by simp
next
  case (12 operator operands s)
  then show ?case by simp
next
  case (13 s)
  show ?case by (simp add: shifted_def)
next
  case (14 params body s)
  show ?case
  proof (intro allI impI)
    fix d and t :: compiler_state assume nl: "next_label t = next_label s + d"
    show "shifted d (map (shift_instr d)) (comp_lambda params body s) (comp_lambda params body t)"
    proof (cases "lambda_arglist params")
      case (Inl e)
      then show ?thesis by (simp add: shifted_def)
    next
      case (Inr arglist)
      have ih: "shifted d (map (shift_instr d)) (comp_begin body (s\<lparr>frame := LocalFrame (frame s) []\<rparr>))
          (comp_begin body (t\<lparr>frame := LocalFrame (frame t) []\<rparr>))"
        using 14 [OF Inr] nl by simp
      show ?thesis
        unfolding comp_lambda.simps Inr sum.case
        by (rule shifted_bind [OF ih])
          (auto intro!: shifted_Inr simp add: instr_seq_def instr_def Let_def)
    qed
  qed
next
  case (15 exprs s)
  then show ?case by simp
next
  case (16 exprlist s)
  show ?case
  proof (intro allI impI)
    fix d and t :: compiler_state assume nl: "next_label t = next_label s + d"
    have ih: "shifted d (map (map (shift_instr d))) (comp_pop_pairs exprlist s) (comp_pop_pairs exprlist t)"
      using 16 nl by simp
    show "shifted d (map (shift_instr d)) (comp_exprlist exprlist s) (comp_exprlist exprlist t)"
      unfolding comp_exprlist.simps
      by (rule shifted_bind [OF ih])
        (auto intro!: shifted_Inr simp add: instr_seq_def Let_def map_concat map_butlast)
  qed
next
  case (17 s)
  show ?case by (simp add: shifted_def)
next
  case (18 e es s)
  show ?case
  proof (intro allI impI)
    fix d and t :: compiler_state assume nl: "next_label t = next_label s + d"
    have ih1: "shifted d (map (shift_instr d)) (comp e s) (comp e t)"
      using 18(1) nl by simp
    show "shifted d (map (map (shift_instr d))) (comp_pop_pairs (e # es) s) (comp_pop_pairs (e # es) t)"
      unfolding comp_pop_pairs.simps
    proof (rule shifted_bind [OF ih1])
      fix a s1 and t1 :: compiler_state
      assume a: "comp e s = Inr (a, s1)" and nl1: "next_label t1 = next_label s1 + d"
      have ih2: "shifted d (map (map (shift_instr d))) (comp_pop_pairs es s1) (comp_pop_pairs es t1)"
        using 18(2) [OF a] nl1 by simp
      show "shifted d (map (map (shift_instr d)))
          (bind (comp_pop_pairs es s1)
            (\<lambda>pairs s2. Inr (instr_seq [a, instr POP_TOP ANone] # pairs, s2)))
          (bind (comp_pop_pairs es t1)
            (\<lambda>pairs s2. Inr (instr_seq [map (shift_instr d) a, instr POP_TOP ANone] # pairs, s2)))"
        by (rule shifted_bind [OF ih2])
          (auto intro!: shifted_Inr simp add: instr_seq_def instr_def)
    qed
  qed
next
  case (19 var val s)
  show ?case
  proof (intro allI impI)
    fix d and t :: compiler_state assume nl: "next_label t = next_label s + d"
    show "shifted d (map (shift_instr d)) (comp_definition var val s) (comp_definition var val t)"
      unfolding comp_definition.simps
      by (rule shifted_bind) (use 19 nl in \<open>auto intro!: shifted_Inr simp add: instr_seq_def instr_def\<close>)
  qed
next
  case (20 p c a s)
  show ?case
  proof (intro allI impI)
    fix d and t :: compiler_state assume nl: "next_label t = next_label s + d"
    define s2 where "s2 = s\<lparr>next_label := Suc (Suc (next_label s))\<rparr>"
    define t2 where "t2 = t\<lparr>next_label := Suc (Suc (next_label t))\<rparr>"
    have nl2: "next_label t2 = next_label s2 + d" by (simp add: s2_def t2_def nl)
    have L: "Label s = (next_label s, s\<lparr>next_label := Suc (next_label s)\<rparr>)"
      "Label (s\<lparr>next_label := Suc (next_label s)\<rparr>) = (Suc (next_label s), s2)"
      "Label t = (next_label t, t\<lparr>next_label := Suc (next_label t)\<rparr>)"
      "Label (t\<lparr>next_label := Suc (next_label t)\<rparr>) = (Suc (next_label t), t2)"
      by (simp_all add: Label_def s2_def t2_def)
    have ih1: "shifted d (map (shift_instr d)) (comp p s2) (comp p t2)"
      using 20(1) [OF L(1) [symmetric] refl L(2) [symmetric] refl] nl2 by simp
    show "shifted d (map (shift_instr d)) (comp_if p c a s) (comp_if p c a t)"
      unfolding comp_if.simps L Let_def prod.case
    proof (rule shifted_bind [OF ih1])
      fix cp s3 and t3 :: compiler_state
      assume a: "comp p s2 = Inr (cp, s3)" and nl3: "next_label t3 = next_label s3 + d"
      have ih2: "shifted d (map (shift_instr d)) (comp c s3) (comp c t3)"
        using 20(2) [OF L(1) [symmetric] refl L(2) [symmetric] refl a] nl3 by simp
      show "shifted d (map (shift_instr d))
          (bind (comp c s3) (\<lambda>compiled_c s4. bind (comp a s4) (\<lambda>compiled_a s5.
               Inr (instr_seq
                     [cp,
                      instr POP_JUMP_IF_FALSE (ALabel (next_label s)),
                      compiled_c,
                      instr JUMP_ABSOLUTE (ALabel (Suc (next_label s))),
                      [Lbl (next_label s)],
                      compiled_a,
                      [Lbl (Suc (next_label s))]], s5))))
          (bind (comp c t3) (\<lambda>compiled_c s4. bind (comp a s4) (\<lambda>compiled_a s5.
               Inr (instr_seq
                     [map (shift_instr d) cp,
                      instr POP_JUMP_IF_FALSE (ALabel (next_label t)),
                      compiled_c,
                      instr JUMP_ABSOLUTE (ALabel (Suc (next_label t))),
                      [Lbl (next_label t)],
                      compiled_a,
                      [Lbl (Suc (next_label t))]], s5))))"
      proof (rule shifted_bind [OF ih2])
        fix cc s4 and t4 :: compiler_state
        assume b: "comp c s3 = Inr (cc, s4)" and nl4: "next_label t4 = next_label s4 + d"
        have ih3: "shifted d (map (shift_instr d)) (comp a s4) (comp a t4)"
          using 20(3) [OF L(1) [symmetric] refl L(2) [symmetric] refl a b] nl4 by simp
        show "shifted d (map (shift_instr d))
            (bind (comp a s4) (\<lambda>compiled_a s5.
               Inr (instr_seq
                     [cp,
                      instr POP_JUMP_IF_FALSE (ALabel (next_label s)),
                      cc,
                      instr JUMP_ABSOLUTE (ALabel (Suc (next_label s))),
                      [Lbl (next_label s)],
                      compiled_a,
                      [Lbl (Suc (next_label s))]], s5)))
            (bind (comp a t4) (\<lambda>compiled_a s5.
               Inr (instr_seq
                     [map (shift_instr d) cp,
                      instr POP_JUMP_IF_FALSE (ALabel (next_label t)),
                      map (shift_instr d) cc,
                      instr JUMP_ABSOLUTE (ALabel (Suc (next_label t))),
                      [Lbl (next_label t)],
                      compiled_a,
                      [Lbl (Suc (next_label t))]], s5)))"
          by (rule shifted_bind [OF ih3])
            (auto intro!: shifted_Inr simp add: instr_seq_def instr_def nl)
      qed
    qed
  qed
next
  case (21 operator operands s)
  show ?case
  proof (intro allI impI)
    fix d and t :: compiler_state assume nl: "next_label t = next_label s + d"
    have ih1: "shifted d (map (map (shift_instr d))) (comp_args operands s) (comp_args operands t)"
      using 21(1) nl by simp
    show "shifted d (map (shift_instr d)) (comp_application operator operands s)
        (comp_application operator operands t)"
      unfolding comp_application.simps
    proof (rule shifted_bind [OF ih1])
      fix a s1 and t1 :: compiler_state
      assume a: "comp_args operands s = Inr (a, s1)" and nl1: "next_label t1 = next_label s1 + d"
      have ih2: "shifted d (map (shift_instr d)) (comp operator s1) (comp operator t1)"
        using 21(2) [OF a] nl1 by simp
      show "shifted d (map (shift_instr d))
          (bind (comp operator s1) (\<lambda>compiled_op s2.
             Inr (instr_seq [compiled_op, instr_seq a,
                    instr CALL_FUNCTION (AInt (int (length operands)))], s2)))
          (bind (comp operator t1) (\<lambda>compiled_op s2.
             Inr (instr_seq [compiled_op, instr_seq (map (map (shift_instr d)) a),
                    instr CALL_FUNCTION (AInt (int (length operands)))], s2)))"
        by (rule shifted_bind [OF ih2])
          (auto intro!: shifted_Inr simp add: instr_seq_def instr_def map_concat)
    qed
  qed
next
  case (22 s)
  show ?case by (simp add: shifted_def)
next
  case (23 e es s)
  show ?case
  proof (intro allI impI)
    fix d and t :: compiler_state assume nl: "next_label t = next_label s + d"
    have ih1: "shifted d (map (shift_instr d)) (comp e s) (comp e t)"
      using 23(1) nl by simp
    show "shifted d (map (map (shift_instr d))) (comp_args (e # es) s) (comp_args (e # es) t)"
      unfolding comp_args.simps
    proof (rule shifted_bind [OF ih1])
      fix a s1 and t1 :: compiler_state
      assume a: "comp e s = Inr (a, s1)" and nl1: "next_label t1 = next_label s1 + d"
      have ih2: "shifted d (map (map (shift_instr d))) (comp_args es s1) (comp_args es t1)"
        using 23(2) [OF a] nl1 by simp
      show "shifted d (map (map (shift_instr d)))
          (bind (comp_args es s1) (\<lambda>rest s2. Inr (a # rest, s2)))
          (bind (comp_args es t1) (\<lambda>rest s2. Inr (map (shift_instr d) a # rest, s2)))"
        by (rule shifted_bind [OF ih2]) (auto intro!: shifted_Inr)
    qed
  qed
qed

lemma shift_add_all:
  "shift_arg m (shift_arg n a) = shift_arg (n + m) a"
  "shift_code m (shift_code n c) = shift_code (n + m) c"
  "shift_instr m (shift_instr n i) = shift_instr (n + m) i"
  by (induction n a and n c and n i rule: shift_arg_shift_code_shift_instr.induct) simp_all

lemma shift_zero_all:
  "shift_arg 0 a = a"
  "shift_code 0 c = c"
  "shift_instr 0 i = i"
  by (induction "0::nat" a and "0::nat" c and "0::nat" i rule: shift_arg_shift_code_shift_instr.induct)
    (simp_all add: map_idI)

lemma compile_shift:
  assumes "next_label t = next_label s + d"
  shows "shifted d (shift_code d) (compile es s) (compile es t)"
proof -
  have "shifted d (map (shift_instr d)) (comp_exprlist es (s\<lparr>frame := GlobalFrame {}\<rparr>))
      (comp_exprlist es (t\<lparr>frame := GlobalFrame {}\<rparr>))"
    using comp_shift_all(4) [of "s\<lparr>frame := GlobalFrame {}\<rparr>" es] assms by simp
  then show ?thesis
    unfolding compile_def
    by (rule shifted_bind) (auto intro!: shifted_Inr simp add: instr_seq_def instr_def Let_def)
qed

lemma compile_code_shift:
  "compile_code parse n code_str = map_sum id (shift_code n) (compile_code parse 0 code_str)"
proof (cases "parse code_str")
  case (Inl e)
  then show ?thesis by (simp add: compile_code_def)
next
  case (Inr es)
  have "shifted n (shift_code n) (compile es (BobCompiler 0)) (compile es (BobCompiler n))"
    by (rule compile_shift) (simp add: BobCompiler_def)
  then show ?thesis
    using Inr by (auto simp add: compile_code_def shifted_def split: sum.splits prod.splits)
qed

text \<open>
  Claim C7. Compiling the same source text twice gives structurally identical results:
  whatever the numbers \<open>n\<close> and \<open>m\<close> of labels created before each run, the two runs
  raise the same exception or return code objects that are equal once the labels of each
  are renamed by the other's offset. The result of \<open>compile\<close> does not depend on the
  attributes of the compiler object either: any two compilers that create the same
  labels return the same code object.
\<close>

theorem compile_code_deterministic:
  "map_sum id (shift_code m) (compile_code parse n code_str) =
     map_sum id (shift_code n) (compile_code parse m code_str) \<and>
   map_sum id fst (compile es s) = map_sum id fst (compile es (t\<lparr>next_label := next_label s\<rparr>))"
proof (intro conjI)
  have "map_sum id (shift_code m) (compile_code parse n code_str) =
      map_sum id (shift_code (n + m)) (compile_code parse 0 code_str)"
    by (subst compile_code_shift [of parse n]) (simp add: sum.map_comp comp_def shift_add_all id_def)
  moreover have "map_sum id (shift_code n) (compile_code parse m code_str) =
      map_sum id (shift_code (m + n)) (compile_code parse 0 code_str)"
    by (subst compile_code_shift [of parse m]) (simp add: sum.map_comp comp_def shift_add_all id_def)
  ultimately show "map_sum id (shift_code m) (compile_code parse n code_str) =
     map_sum id (shift_code n) (compile_code parse m code_str)"
    by (simp add: add.commute)
  have "shifted 0 (shift_code 0) (compile es s) (compile es (t\<lparr>next_label := next_label s\<rparr>))"
    by (rule compile_shift) simp
  then show "map_sum id fst (compile es s) =
      map_sum id fst (compile es (t\<lparr>next_label := next_label s\<rparr>))"
    by (auto simp add: shifted_def shift_zero_all split: sum.splits prod.splits)
qed

section \<open>Assignment\<close>

text \<open>
  Claim C3 at the program \<open>(set! x 5)\<close>, where \<open>x\<close> is defined nowhere. The compiler
  emits the value and a \<open>STORE_FAST\<close> of \<open>x\<close> and raises nothing, with no name in its
  global frame; \<open>op_storevar\<close> emits a \<open>STORE_FAST\<close> in an environment where
  \<open>lookup_var\<close> of \<open>x\<close> raises \<open>KeyError\<close>. The comment in \<open>op_storevar\<close> asks for the
  check the claim describes (fail if not already defined); the code does not make it.
\<close>

theorem compile_assignment_undefined:
  "compile [Assignment ''x'' (ENumber 5)] (BobCompiler 0) =
     Inr (Code [Op LOAD_CONST (AInt 5), Op STORE_FAST (AStr ''x''), Op RETURN_VALUE ANone]
            [] [] False False False ''__main__'' ''<scheme>>'' 0 None,
          \<lparr>labelstate = 0, frame = GlobalFrame {}, next_label = 0\<rparr>) \<and>
   lookup_var (Environment None [] []) ''x'' = Inl KeyError \<and>
   op_storevar [] (Environment None [] [])
       (CodeObject [] [] [Instruction OP_CONST (Some 0), Instruction OP_STOREVAR (Some 0)]
          [Number 5] [''x''])
       (Instruction OP_STOREVAR (Some 0)) =
     Inr [Op STORE_FAST (AStr ''x'')]"
  by (simp add: compile_def BobCompiler_def bind_def instr_seq_def instr_def
      op_storevar_def py_index_def)

section \<open>The arithmetic-sum primitive\<close>

lemma foldl_add_sum_list: "foldl (+) a xs = a + sum_list xs" for a :: int
  by (induction xs arbitrary: a) simp_all

text \<open>
  Claim C8. The globals \<open>run_compiled\<close> gives the code, and the globals of
  \<open>runtime.py\<close>, bind the name \<open>+\<close> to a procedure that, applied to any list of
  numbers, returns their sum and prints nothing.
\<close>

theorem add_is_sum:
  "map_of run_compiled_globals ''+'' = Some (Procedure Lambda_sum) \<and>
   call Lambda_sum xs = Inr (Some (sum_list xs), []) \<and>
   (\<exists>g. runtime_globals = Inr g \<and> map_of g ''+'' = Some (Procedure Runtime_add)) \<and>
   call Runtime_add xs = Inr (Some (sum_list xs), []) \<and>
   add xs = sum_list xs"
  by (simp add: run_compiled_globals_def runtime_globals_def runtime_defined_def
      add_def py_sum_def foldl_add_sum_list)

section \<open>Conditional jumps\<close>

text \<open>
  Claim C4, as amended. The conditional jump pops the top of the stack and transfers
  control to its target exactly when the popped value is false for the host: the boolean
  false, and also the number zero, \<open>None\<close> and the empty string; every other value falls
  through. The compiler emits it right after the code of the predicate of an \<open>if\<close>, with
  the label of the alternative as its target.
\<close>

theorem pop_jump_if_false_truth:
  "pop_jump_if_false target pc tos stack =
     (if tos \<in> {ABool False, AInt 0, ANone, AStr []} then target else Suc pc, stack) \<and>
   comp (If p c a) s =
     bind (comp p (s\<lparr>next_label := Suc (Suc (next_label s))\<rparr>)) (\<lambda>compiled_p s3.
       bind (comp c s3) (\<lambda>compiled_c s4.
         bind (comp a s4) (\<lambda>compiled_a s5.
           Inr (compiled_p @ [Op POP_JUMP_IF_FALSE (ALabel (next_label s))] @
                compiled_c @ [Op JUMP_ABSOLUTE (ALabel (Suc (next_label s)))] @
                [Lbl (next_label s)] @ compiled_a @ [Lbl (Suc (next_label s))], s5))))"
proof
  show "pop_jump_if_false target pc tos stack =
     (if tos \<in> {ABool False, AInt 0, ANone, AStr []} then target else Suc pc, stack)"
    by (cases tos) (auto simp add: pop_jump_if_false_def)
  show "comp (If p c a) s =
     bind (comp p (s\<lparr>next_label := Suc (Suc (next_label s))\<rparr>)) (\<lambda>compiled_p s3.
       bind (comp c s3) (\<lambda>compiled_c s4.
         bind (comp a s4) (\<lambda>compiled_a s5.
           Inr (compiled_p @ [Op POP_JUMP_IF_FALSE (ALabel (next_label s))] @
                compiled_c @ [Op JUMP_ABSOLUTE (ALabel (Suc (next_label s)))] @
                [Lbl (next_label s)] @ compiled_a @ [Lbl (Suc (next_label s))], s5))))"
    by (simp add: Label_def instr_seq_def instr_def)
qed

text \<open>
  Claim C4 as stated fails: the code of \<open>(if 0 1 2)\<close> loads the number zero, which is not
  the boolean false, and the conditional jump transfers control on it; it does so on
  \<open>None\<close> as well.
\<close>

theorem fjump_zero_counterexample:
  "comp (If (ENumber 0) (ENumber 1) (ENumber 2)) (BobCompiler 0) =
     Inr ([Op LOAD_CONST (AInt 0), Op POP_JUMP_IF_FALSE (ALabel 0),
           Op LOAD_CONST (AInt 1), Op JUMP_ABSOLUTE (ALabel 1), Lbl 0,
           Op LOAD_CONST (AInt 2), Lbl 1],
          \<lparr>labelstate = 0, frame = NoFrame, next_label = 2\<rparr>) \<and>
   AInt 0 \<noteq> ABool False \<and>
   pop_jump_if_false 4 1 (AInt 0) [] = (4, []) \<and>
   pop_jump_if_false 4 1 ANone [] = (4, [])"
  by (simp add: BobCompiler_def Label_def bind_def instr_seq_def instr_def
      pop_jump_if_false_def)

section \<open>Decoding what the serializer wrote\<close>





lemma cat_Inr_E:
  assumes "cat a b = Inr out"
  obtains x y where "a = Inr x" "b = Inr y" "out = x @ y"
  using assms by (cases a; cases b) auto





lemma foldr_cat_Inr:
  "foldr cat rs (Inr []) = Inr p \<Longrightarrow> \<exists>es. rs = map Inr es \<and> p = concat es"
proof (induction rs arbitrary: p)
  case Nil
  then show ?case by simp
next
  case (Cons r rs)
  from Cons.prems obtain x y where r: "r = Inr x" and y: "foldr cat rs (Inr []) = Inr y"
    and p: "p = x @ y"
    by (auto elim!: cat_Inr_E)
  from Cons.IH [OF y] obtain es where "rs = map Inr es" "y = concat es" by blast
  with r p have "r # rs = map Inr (x # es) \<and> p = concat (x # es)" by simp
  then show ?case by (rule exI)
qed

















section \<open>Round trip\<close>







end
